theory Spec2Isabelle
  imports Complex_Main
begin

section \<open>Values exchanged with the upstream API and the client\<close>

text \<open>
  The server (\<^verbatim>\<open>src/server.js\<close>) passes parsed JSON through: what
  \<^verbatim>\<open>response.json()\<close> yields is stored in the cache and handed to
  \<^verbatim>\<open>res.json\<close>. A JavaScript value that came out of a JSON parser is one of
  the six shapes below. A number is the finite double the parser produced, read as the
  rational it denotes (both zeros are \<open>0\<close>); no arithmetic is done on it, only its
  truthiness is tested. An object is its list of own properties.
\<close>

datatype json =
    JNull
  | JBool bool
  | JNum rat
  | JStr string
  | JArr "json list"
  | JObj "(string \<times> json) list"

text \<open>JavaScript truthiness (what \<^verbatim>\<open>!v\<close> and \<^verbatim>\<open>v || w\<close> test).\<close>

fun truthy :: "json \<Rightarrow> bool" where
  "truthy JNull = False"
| "truthy (JBool b) = b"
| "truthy (JNum n) = (n \<noteq> 0)"
| "truthy (JStr s) = (s \<noteq> [])"
| "truthy (JArr xs) = True"
| "truthy (JObj kvs) = True"

section \<open>The in-memory cache\<close>

text \<open>
  \<^verbatim>\<open>const cache = { general: { data: null, timestamp: null }, symbols: {} }\<close>.
  A timestamp is \<^verbatim>\<open>null\<close> (\<open>None\<close>) or a reading of \<^verbatim>\<open>Date.now()\<close>,
  an integral number of milliseconds.
\<close>

record cache_entry =
  data :: json
  timestamp :: "int option"

record symbol_cache =
  news :: cache_entry
  price :: cache_entry

record cache =
  general :: cache_entry
  symbols :: "string \<Rightarrow> symbol_cache option"

definition empty_entry :: cache_entry where
  "empty_entry = \<lparr>data = JNull, timestamp = None\<rparr>"

definition empty_symbol_cache :: symbol_cache where
  "empty_symbol_cache = \<lparr>news = empty_entry, price = empty_entry\<rparr>"

definition initial_cache :: cache where
  "initial_cache = \<lparr>general = empty_entry, symbols = (\<lambda>k. None)\<rparr>"

definition CACHE_TTL :: int where
  "CACHE_TTL = 60 * 1000"

text \<open>
  \<^verbatim>\<open>isCacheValid(cacheEntry)\<close>, with the reading \<open>now\<close> of \<^verbatim>\<open>Date.now()\<close>
  made a parameter. The guard \<^verbatim>\<open>!cacheEntry || !cacheEntry.timestamp\<close> is a
  truthiness test: it holds for a missing entry, for a \<^verbatim>\<open>null\<close> timestamp and
  for the number \<open>0\<close>.
\<close>

fun isCacheValid :: "int \<Rightarrow> cache_entry option \<Rightarrow> bool" where
  "isCacheValid now None = False"
| "isCacheValid now (Some cacheEntry) =
     (case timestamp cacheEntry of
        None \<Rightarrow> False
      | Some t \<Rightarrow> if t = 0 then False else now - t < CACHE_TTL)"

section \<open>Upstream calls\<close>

text \<open>
  What \<^verbatim>\<open>fetch(url)\<close> does is the environment's choice: the promise rejects
  (a network failure, with a message), or it resolves to a response with a status, a
  status text and a body that \<^verbatim>\<open>response.json()\<close> either parses or rejects.
  \<^verbatim>\<open>response.ok\<close> is the Fetch API's getter: the status is in the range 200 to 299.
\<close>

record fetch_response =
  status :: int
  statusText :: string
  json_body :: "string + json"

datatype fetch_outcome = Rejects string | Resolves fetch_response

definition ok :: "fetch_response \<Rightarrow> bool" where
  "ok r = (200 \<le> status r \<and> status r < 300)"

text \<open>A thrown \<^verbatim>\<open>Error\<close>: its \<^verbatim>\<open>status\<close> property, when one was set, and its message.\<close>

record js_error =
  err_status :: "int option"
  err_message :: string

text \<open>
  The three upstream endpoints, as the URL that is built names them. The query string
  (the token, and the seven-day window of the company-news URL) does not enter any
  decision of the handlers and is left out.
\<close>

datatype upstream_call = GeneralNews | CompanyNews string | Quote string

text \<open>
  \<^verbatim>\<open>fetchNewsFromFinnhub(symbol = null)\<close> picks the URL by the truthiness of
  \<^verbatim>\<open>symbol\<close>: company news for a non-empty string, general news otherwise.
\<close>

definition news_url :: "string option \<Rightarrow> upstream_call" where
  "news_url symbol =
     (case symbol of
        None \<Rightarrow> GeneralNews
      | Some s \<Rightarrow> if s \<noteq> [] then CompanyNews s else GeneralNews)"

text \<open>
  The body shared by \<^verbatim>\<open>fetchNewsFromFinnhub\<close> and \<^verbatim>\<open>fetchPriceFromFinnhub\<close>
  once the URL is built: the outcome of \<^verbatim>\<open>fetch\<close> is turned into the parsed
  body or a thrown error.
\<close>

definition fetchFromFinnhub :: "fetch_outcome \<Rightarrow> js_error + json" where
  "fetchFromFinnhub outcome =
     (case outcome of
        Rejects m \<Rightarrow> Inl \<lparr>err_status = None, err_message = m\<rparr>
      | Resolves response \<Rightarrow>
          if \<not> ok response then
            (if status response = 429 then
               Inl \<lparr>err_status = Some 429,
                    err_message = ''Rate limit exceeded. Please try again later.''\<rparr>
             else
               Inl \<lparr>err_status = Some (status response),
                    err_message = ''Finnhub API error: '' @ statusText response\<rparr>)
          else
            (case json_body response of
               Inl m \<Rightarrow> Inl \<lparr>err_status = None, err_message = m\<rparr>
             | Inr d \<Rightarrow> Inr d))"

definition fetchNewsFromFinnhub :: "fetch_outcome \<Rightarrow> js_error + json" where
  "fetchNewsFromFinnhub outcome = fetchFromFinnhub outcome"

definition fetchPriceFromFinnhub :: "fetch_outcome \<Rightarrow> js_error + json" where
  "fetchPriceFromFinnhub outcome = fetchFromFinnhub outcome"

section \<open>Responses to the client\<close>

text \<open>\<^verbatim>\<open>res.status(code).json(body)\<close>; the status is 200 when none is set.\<close>

record http_response =
  res_status :: int
  res_json :: json

definition config_error :: http_response where
  "config_error =
     \<lparr>res_status = 500,
      res_json = JObj [(''error'', JStr ''Server configuration error''),
                       (''message'', JStr ''FINNHUB_API_KEY environment variable is not set'')]\<rparr>"

text \<open>
  The \<^verbatim>\<open>catch\<close> block of both handlers; \<open>category\<close> is
  \<^verbatim>\<open>'Failed to fetch news'\<close> or \<^verbatim>\<open>'Failed to fetch news/price'\<close>.
  \<^verbatim>\<open>error.status || 500\<close> and \<^verbatim>\<open>error.message || '...'\<close> fall back on
  a falsy left operand.
\<close>

definition catch_error :: "string \<Rightarrow> js_error \<Rightarrow> http_response" where
  "catch_error category error =
     (if err_status error = Some 429 then
        \<lparr>res_status = 429,
         res_json = JObj [(''error'', JStr ''Rate limit exceeded''),
                          (''message'', JStr ''Too many requests. Please try again later.'')]\<rparr>
      else
        \<lparr>res_status =
           (case err_status error of
              None \<Rightarrow> 500
            | Some c \<Rightarrow> if c = 0 then 500 else c),
         res_json = JObj [(''error'', JStr category),
                          (''message'',
                           JStr (if err_message error = [] then ''An unexpected error occurred''
                                 else err_message error))]\<rparr>)"

text \<open>\<^verbatim>\<open>!FINNHUB_API_KEY\<close>: the variable is unset or the empty string.\<close>

definition key_missing :: "string option \<Rightarrow> bool" where
  "key_missing FINNHUB_API_KEY =
     (case FINNHUB_API_KEY of None \<Rightarrow> True | Some k \<Rightarrow> k = [])"

text \<open>Reading a property of a response body: the field of a record in \<open>JObj\<close>.\<close>

definition field :: "string \<Rightarrow> json \<Rightarrow> json option" where
  "field k v = (case v of JObj kvs \<Rightarrow> map_of kvs k | _ \<Rightarrow> None)"

section \<open>GET /api/news\<close>

text \<open>
  The handler reads the clock once in \<^verbatim>\<open>isCacheValid\<close> and, after the awaited
  fetch, once more for the timestamp it stores. The environment of one request is these
  two readings and the outcome of the fetch, should the handler make it. The handler
  returns the response, the cache after the request and the upstream calls it made,
  in order.
\<close>

record general_env =
  g_check_time :: int
  g_fetch :: fetch_outcome
  g_write_time :: int

definition getGeneralNews ::
  "string option \<Rightarrow> cache \<Rightarrow> general_env \<Rightarrow> http_response \<times> cache \<times> upstream_call list" where
  "getGeneralNews FINNHUB_API_KEY c env =
     (if isCacheValid (g_check_time env) (Some (general c)) then
        (\<lparr>res_status = 200, res_json = data (general c)\<rparr>, c, [])
      else if key_missing FINNHUB_API_KEY then
        (config_error, c, [])
      else
        (case fetchNewsFromFinnhub (g_fetch env) of
           Inl error \<Rightarrow> (catch_error ''Failed to fetch news'' error, c, [news_url None])
         | Inr n \<Rightarrow>
             (\<lparr>res_status = 200, res_json = n\<rparr>,
              c\<lparr>general := \<lparr>data = n, timestamp = Some (g_write_time env)\<rparr>\<rparr>,
              [news_url None])))"

section \<open>GET /api/news/:symbol\<close>

text \<open>
  \<^verbatim>\<open>req.params.symbol.toUpperCase()\<close>, on the ASCII letters (a ticker symbol is
  ASCII; the route parameter is never empty).
\<close>

definition toUpperChar :: "char \<Rightarrow> char" where
  "toUpperChar ch =
     (let n = (of_char ch :: nat) in if 97 \<le> n \<and> n \<le> 122 then char_of (n - 32) else ch)"

definition toUpperCase :: "string \<Rightarrow> string" where
  "toUpperCase s = map toUpperChar s"

text \<open>
  The clock is read up to four times (two validity checks, two cache writes) and up to
  two fetches are awaited; the environment of one request gives each of them.
\<close>

record symbol_env =
  n_check_time :: int
  n_fetch :: fetch_outcome
  n_write_time :: int
  p_check_time :: int
  p_fetch :: fetch_outcome
  p_write_time :: int

text \<open>
  \<^verbatim>\<open>priceData.c\<close>: reading a property of \<^verbatim>\<open>null\<close> throws a
  \<^verbatim>\<open>TypeError\<close> (no \<^verbatim>\<open>status\<close>); of an object it is the property or
  \<^verbatim>\<open>undefined\<close> (\<open>None\<close>); of any other parsed value it is \<^verbatim>\<open>undefined\<close>.
\<close>

definition prop_c :: "json \<Rightarrow> js_error + json option" where
  "prop_c priceData =
     (case priceData of
        JNull \<Rightarrow> Inl \<lparr>err_status = None,
                      err_message = ''Cannot read properties of null (reading 'c')''\<rparr>
      | JObj kvs \<Rightarrow> Inr (map_of kvs ''c'')
      | _ \<Rightarrow> Inr None)"

text \<open>\<^verbatim>\<open>v || null\<close>.\<close>

definition or_null :: "json option \<Rightarrow> json" where
  "or_null v = (case v of None \<Rightarrow> JNull | Some x \<Rightarrow> if truthy x then x else JNull)"

text \<open>\<^verbatim>\<open>Array.isArray(news) ? news : []\<close>.\<close>

definition array_or_empty :: "json \<Rightarrow> json" where
  "array_or_empty v = (case v of JArr xs \<Rightarrow> JArr xs | _ \<Rightarrow> JArr [])"

text \<open>
  Lines 162 to 172, "Fetch news (from cache or API)": the result is the news or the
  thrown error, with the symbol's cache record, the \<^verbatim>\<open>source\<close> flag and the
  upstream calls made.
\<close>

definition resolve_news ::
  "string \<Rightarrow> symbol_cache \<Rightarrow> string \<Rightarrow> symbol_env
     \<Rightarrow> (js_error + json) \<times> symbol_cache \<times> string \<times> upstream_call list" where
  "resolve_news symbol symbolCache source env =
     (if isCacheValid (n_check_time env) (Some (news symbolCache)) then
        (Inr (data (news symbolCache)), symbolCache, source, [])
      else
        (case fetchNewsFromFinnhub (n_fetch env) of
           Inl error \<Rightarrow> (Inl error, symbolCache, source, [news_url (Some symbol)])
         | Inr n \<Rightarrow>
             (Inr n,
              symbolCache\<lparr>news := \<lparr>data = n, timestamp = Some (n_write_time env)\<rparr>\<rparr>,
              ''api'', [news_url (Some symbol)])))"

text \<open>Lines 174 to 185, "Fetch price (from cache or API)".\<close>

definition resolve_price ::
  "string \<Rightarrow> symbol_cache \<Rightarrow> string \<Rightarrow> symbol_env
     \<Rightarrow> (js_error + json) \<times> symbol_cache \<times> string \<times> upstream_call list" where
  "resolve_price symbol symbolCache source env =
     (if isCacheValid (p_check_time env) (Some (price symbolCache)) then
        (Inr (data (price symbolCache)), symbolCache, source, [])
      else
        (case fetchPriceFromFinnhub (p_fetch env) of
           Inl error \<Rightarrow> (Inl error, symbolCache, source, [Quote symbol])
         | Inr priceData \<Rightarrow>
             (case prop_c priceData of
                Inl error \<Rightarrow> (Inl error, symbolCache, source, [Quote symbol])
              | Inr v \<Rightarrow>
                  (Inr (or_null v),
                   symbolCache\<lparr>price := \<lparr>data = or_null v,
                                          timestamp = Some (p_write_time env)\<rparr>\<rparr>,
                   ''api'', [Quote symbol]))))"

text \<open>
  The handler. The record of the symbol is created before the key is checked; the
  writes to \<^verbatim>\<open>symbolCache\<close> are writes to the object held in
  \<^verbatim>\<open>cache.symbols[symbol]\<close>, so the record is stored back under its key.
\<close>

definition put_symbol :: "cache \<Rightarrow> string \<Rightarrow> symbol_cache \<Rightarrow> cache" where
  "put_symbol c symbol sc = c\<lparr>symbols := (symbols c)(symbol \<mapsto> sc)\<rparr>"

text \<open>
  \<^verbatim>\<open>if (!cache.symbols[symbol]) cache.symbols[symbol] = { news: ..., price: ... }\<close>
  and the read \<^verbatim>\<open>cache.symbols[symbol]\<close> that follows it. Read through
  \<open>symbol_record\<close>, a symbol never requested has the empty record that its first
  request creates.
\<close>

definition ensure_symbol :: "cache \<Rightarrow> string \<Rightarrow> cache" where
  "ensure_symbol c symbol =
     (case symbols c symbol of
        None \<Rightarrow> put_symbol c symbol empty_symbol_cache
      | Some sc \<Rightarrow> c)"

definition symbol_record :: "cache \<Rightarrow> string \<Rightarrow> symbol_cache" where
  "symbol_record c symbol =
     (case symbols c symbol of None \<Rightarrow> empty_symbol_cache | Some sc \<Rightarrow> sc)"

definition getSymbolNews ::
  "string option \<Rightarrow> cache \<Rightarrow> string \<Rightarrow> symbol_env
     \<Rightarrow> http_response \<times> cache \<times> upstream_call list" where
  "getSymbolNews FINNHUB_API_KEY c0 param env =
     (let symbol = toUpperCase param;
          c = ensure_symbol c0 symbol;
          symbolCache = symbol_record c symbol
      in
        if key_missing FINNHUB_API_KEY then (config_error, c, [])
        else
          (case resolve_news symbol symbolCache ''cache'' env of
             (Inl error, sc1, source1, calls1) \<Rightarrow>
               (catch_error ''Failed to fetch news/price'' error, put_symbol c symbol sc1, calls1)
           | (Inr n, sc1, source1, calls1) \<Rightarrow>
               (case resolve_price symbol sc1 source1 env of
                  (Inl error, sc2, source2, calls2) \<Rightarrow>
                    (catch_error ''Failed to fetch news/price'' error,
                     put_symbol c symbol sc2, calls1 @ calls2)
                | (Inr p, sc2, source2, calls2) \<Rightarrow>
                    (\<lparr>res_status = 200,
                      res_json = JObj [(''symbol'', JStr symbol),
                                       (''price'', p),
                                       (''news'', array_or_empty n),
                                       (''source'', JStr source2)]\<rparr>,
                     put_symbol c symbol sc2, calls1 @ calls2))))"

section \<open>Runs of the server\<close>

text \<open>
  Requests are handled one after the other (each handler as one step); a run is a
  list of requests, each with the environment it met.
\<close>

datatype request = General general_env | Symbol string symbol_env

definition handle :: "string option \<Rightarrow> cache \<Rightarrow> request
     \<Rightarrow> http_response \<times> cache \<times> upstream_call list" where
  "handle FINNHUB_API_KEY c req =
     (case req of
        General env \<Rightarrow> getGeneralNews FINNHUB_API_KEY c env
      | Symbol param env \<Rightarrow> getSymbolNews FINNHUB_API_KEY c param env)"

definition step :: "string option \<Rightarrow> cache \<Rightarrow> request \<Rightarrow> cache" where
  "step FINNHUB_API_KEY c req = fst (snd (handle FINNHUB_API_KEY c req))"

definition run :: "string option \<Rightarrow> cache \<Rightarrow> request list \<Rightarrow> cache" where
  "run FINNHUB_API_KEY c reqs = foldl (step FINNHUB_API_KEY) c reqs"

section \<open>Predicates of the specification\<close>

text \<open>
  The invariant of a cache entry in the specification's words: "\<^verbatim>\<open>data\<close> is absent
  iff \<^verbatim>\<open>fetchedAt\<close> is absent", absent being \<^verbatim>\<open>null\<close>.
\<close>

definition entry_inv_spec :: "cache_entry \<Rightarrow> bool" where
  "entry_inv_spec e = (data e = JNull \<longleftrightarrow> timestamp e = None)"

text \<open>The half of it that the handlers keep: an entry without a timestamp has no data.\<close>

definition entry_inv :: "cache_entry \<Rightarrow> bool" where
  "entry_inv e = (timestamp e = None \<longrightarrow> data e = JNull)"

definition cache_inv :: "cache \<Rightarrow> bool" where
  "cache_inv c =
     (entry_inv (general c) \<and>
      (\<forall>symbol sc. symbols c symbol = Some sc \<longrightarrow> entry_inv (news sc) \<and> entry_inv (price sc)))"

text \<open>A response that reports the upstream's rate limit.\<close>

definition rate_limited :: "http_response \<Rightarrow> bool" where
  "rate_limited r =
     (res_status r = 429 \<and> field ''error'' (res_json r) = Some (JStr ''Rate limit exceeded''))"

text \<open>
  How the status of an upstream response that is not a success shows in the response
  to the client: a 429 as a 429 under the category "Rate limit exceeded", any other
  status as itself. (A status is a three-digit number; on the number 0
  \<^verbatim>\<open>error.status || 500\<close> would answer 500.)
\<close>

definition surfaced :: "fetch_response \<Rightarrow> http_response \<Rightarrow> bool" where
  "surfaced resp r =
     ((status resp = 429 \<longrightarrow> rate_limited r) \<and>
      (\<not> ok resp \<and> status resp \<noteq> 429 \<and> status resp \<noteq> 0 \<longrightarrow> res_status r = status resp))"

text \<open>
  The price step fails when the quote fetch throws, or when the parsed body is
  \<^verbatim>\<open>null\<close> and reading its property throws.
\<close>

definition quote_fails :: "symbol_env \<Rightarrow> bool" where
  "quote_fails env =
     (case fetchPriceFromFinnhub (p_fetch env) of
        Inl error \<Rightarrow> True
      | Inr priceData \<Rightarrow> priceData = JNull)"

section \<open>Example environments\<close>

definition http_ok :: "json \<Rightarrow> fetch_outcome" where
  "http_ok b = Resolves \<lparr>status = 200, statusText = ''OK'', json_body = Inr b\<rparr>"

definition http_fail :: "int \<Rightarrow> string \<Rightarrow> fetch_outcome" where
  "http_fail code txt = Resolves \<lparr>status = code, statusText = txt, json_body = Inr JNull\<rparr>"

definition article :: json where
  "article = JObj [(''headline'', JStr ''Markets open higher''), (''datetime'', JNum 1700000000)]"

text \<open>A general-news request at time \<open>t\<close> whose fetch, if made, takes 120 ms.\<close>

definition general_at :: "int \<Rightarrow> fetch_outcome \<Rightarrow> general_env" where
  "general_at t f = \<lparr>g_check_time = t, g_fetch = f, g_write_time = t + 120\<rparr>"

text \<open>A symbol request at time \<open>t\<close>; each fetch, if made, takes 100 ms.\<close>

definition symbol_at :: "int \<Rightarrow> fetch_outcome \<Rightarrow> fetch_outcome \<Rightarrow> symbol_env" where
  "symbol_at t nf pf =
     \<lparr>n_check_time = t, n_fetch = nf, n_write_time = t + 100,
      p_check_time = t + 101, p_fetch = pf, p_write_time = t + 201\<rparr>"

definition api_key :: "string option" where
  "api_key = Some ''c0ffee''"

definition t0 :: int where
  "t0 = 1700000000000"

definition quote_body :: "rat \<Rightarrow> json" where
  "quote_body p = JObj [(''c'', JNum p), (''pc'', JNum 149)]"

definition unavailable :: fetch_outcome where
  "unavailable = http_fail 503 ''Service Unavailable''"

definition too_many :: fetch_outcome where
  "too_many = http_fail 429 ''Too Many Requests''"

text \<open>A cache whose entries for AAPL were written 90 seconds before \<open>t0\<close>.\<close>

definition aged_cache :: cache where
  "aged_cache =
     put_symbol initial_cache ''AAPL''
       \<lparr>news = \<lparr>data = JArr [article], timestamp = Some (t0 - 90000)\<rparr>,
        price = \<lparr>data = JNum 150, timestamp = Some (t0 - 90000)\<rparr>\<rparr>"

text \<open>A first request for a symbol whose quote carries a current price of 0.\<close>

definition zero_quote_run :: "request list" where
  "zero_quote_run =
     [Symbol ''aapl'' (symbol_at t0 (http_ok (JArr [article])) (http_ok (quote_body 0)))]"

text \<open>A cache whose general entry was written at \<open>t0\<close>.\<close>

definition warm_cache :: cache where
  "warm_cache = initial_cache\<lparr>general := \<lparr>data = JArr [article], timestamp = Some t0\<rparr>\<rparr>"

section \<open>The freshness test\<close>

text \<open>
  A timestamp is written only as a reading of \<^verbatim>\<open>Date.now()\<close> (lines 115, 169
  and 182). The guard of \<^verbatim>\<open>isCacheValid\<close> takes the number 0 for an absent
  timestamp, so an entry stamped 0 is never valid; this can matter only while the clock
  reads less than one TTL, that is within the first minute after the epoch.
\<close>

lemma isCacheValid_zero_timestamp:
  "\<not> isCacheValid now (Some \<lparr>data = d, timestamp = Some 0\<rparr>)"
  by simp

text \<open>
  C4. For every cache entry and every current time \<open>now\<close>, \<^verbatim>\<open>isCacheValid\<close> is
  true iff the entry has a timestamp and \<open>now - timestamp < TTL\<close>, with a TTL of
  60000 ms. It is false when there is no entry or no timestamp; at an age of exactly
  60000 ms it is already false, and at 59999 ms it is still true. The entry's timestamp
  is a reading of the clock other than 0, or else the clock is at least one TTL past
  the epoch.
\<close>

theorem isCacheValid_iff:
  assumes "timestamp e \<noteq> Some 0 \<or> CACHE_TTL \<le> now"
  shows "(isCacheValid now (Some e) \<longleftrightarrow> (\<exists>t. timestamp e = Some t \<and> now - t < 60000))
     \<and> (timestamp e = None \<longrightarrow> \<not> isCacheValid now (Some e))
     \<and> \<not> isCacheValid now None
     \<and> (\<forall>t. timestamp e = Some t \<and> now - t = 60000 \<longrightarrow> \<not> isCacheValid now (Some e))
     \<and> (\<forall>t. timestamp e = Some t \<and> now - t = 59999 \<longrightarrow> isCacheValid now (Some e))"
  using assms by (auto simp: CACHE_TTL_def split: option.splits)

theorem isCacheValid_iff_witness:
  "isCacheValid 1700000059999 (Some \<lparr>data = JArr [], timestamp = Some 1700000000000\<rparr>)
   \<and> \<not> isCacheValid 1700000060000 (Some \<lparr>data = JArr [], timestamp = Some 1700000000000\<rparr>)
   \<and> \<not> isCacheValid 1700000060000 (Some \<lparr>data = JNull, timestamp = None\<rparr>)"
proof -
  have a: "timestamp \<lparr>data = JArr [], timestamp = Some 1700000000000\<rparr> \<noteq> Some 0
      \<or> CACHE_TTL \<le> 1700000059999" by simp
  have b: "timestamp \<lparr>data = JArr [], timestamp = Some 1700000000000\<rparr> \<noteq> Some 0
      \<or> CACHE_TTL \<le> 1700000060000" by simp
  have c: "timestamp \<lparr>data = JNull, timestamp = None\<rparr> \<noteq> Some 0
      \<or> CACHE_TTL \<le> 1700000060000" by simp
  from isCacheValid_iff [OF a] isCacheValid_iff [OF b] isCacheValid_iff [OF c]
  show ?thesis by simp
qed

section \<open>Facts about the handlers\<close>

declare isCacheValid.simps [simp del]

lemma toUpperCase_aapl: "toUpperCase ''aapl'' = ''AAPL''"
  by code_simp

lemma symbol_record_ensure [simp]:
  "symbol_record (ensure_symbol c symbol) symbol = symbol_record c symbol"
  by (simp add: symbol_record_def ensure_symbol_def put_symbol_def split: option.splits)

lemma general_ensure [simp]: "general (ensure_symbol c symbol) = general c"
  by (simp add: ensure_symbol_def put_symbol_def split: option.splits)

lemma general_put [simp]: "general (put_symbol c symbol sc) = general c"
  by (simp add: put_symbol_def)

lemma symbols_put: "symbols (put_symbol c symbol sc) s = (if s = symbol then Some sc else symbols c s)"
  by (simp add: put_symbol_def)

lemma symbols_ensure:
  "symbols (ensure_symbol c symbol) s = (if s = symbol then Some (symbol_record c symbol) else symbols c s)"
  by (simp add: ensure_symbol_def put_symbol_def symbol_record_def split: option.splits)

lemma symbol_record_put:
  "symbol_record (put_symbol c symbol sc) s = (if s = symbol then sc else symbol_record c s)"
  by (simp add: symbol_record_def put_symbol_def)

lemma catch_error_not_200:
  "fetchFromFinnhub f = Inl e \<Longrightarrow> res_status (catch_error cat e) \<notin> {200..<300}"
  by (auto simp: fetchFromFinnhub_def catch_error_def ok_def
      split: fetch_outcome.splits if_splits sum.splits)

lemma prop_c_error_not_200:
  "prop_c pd = Inl e \<Longrightarrow> res_status (catch_error cat e) = 500"
  by (auto simp: prop_c_def catch_error_def split: json.splits)

lemma news_url_not_quote [simp]: "news_url s \<noteq> Quote q"
  by (simp add: news_url_def split: option.splits)

text \<open>The three ways the news step ends.\<close>

lemma resolve_news_hit:
  "isCacheValid (n_check_time env) (Some (news sc)) \<Longrightarrow>
   resolve_news symbol sc src env = (Inr (data (news sc)), sc, src, [])"
  by (simp add: resolve_news_def)

lemma resolve_news_throw:
  "\<not> isCacheValid (n_check_time env) (Some (news sc)) \<Longrightarrow>
   fetchNewsFromFinnhub (n_fetch env) = Inl e \<Longrightarrow>
   resolve_news symbol sc src env = (Inl e, sc, src, [news_url (Some symbol)])"
  by (simp add: resolve_news_def)

lemma resolve_news_fetch:
  "\<not> isCacheValid (n_check_time env) (Some (news sc)) \<Longrightarrow>
   fetchNewsFromFinnhub (n_fetch env) = Inr n \<Longrightarrow>
   resolve_news symbol sc src env =
     (Inr n, sc\<lparr>news := \<lparr>data = n, timestamp = Some (n_write_time env)\<rparr>\<rparr>, ''api'',
      [news_url (Some symbol)])"
  by (simp add: resolve_news_def)

lemma resolve_price_hit:
  "isCacheValid (p_check_time env) (Some (price sc)) \<Longrightarrow>
   resolve_price symbol sc src env = (Inr (data (price sc)), sc, src, [])"
  by (simp add: resolve_price_def)

lemma resolve_price_throw:
  assumes "\<not> isCacheValid (p_check_time env) (Some (price sc))" and "quote_fails env"
  shows "\<exists>e. resolve_price symbol sc src env = (Inl e, sc, src, [Quote symbol])
     \<and> res_status (catch_error cat e) \<notin> {200..<300}"
proof (cases "fetchPriceFromFinnhub (p_fetch env)")
  case (Inl e)
  then have "res_status (catch_error cat e) \<notin> {200..<300}"
    unfolding fetchPriceFromFinnhub_def by (rule catch_error_not_200)
  with Inl assms(1) show ?thesis by (simp add: resolve_price_def)
next
  case (Inr pd)
  with assms(2) have pd: "pd = JNull" by (simp add: quote_fails_def)
  obtain e where e: "prop_c JNull = Inl e" by (simp add: prop_c_def)
  then have "res_status (catch_error cat e) = 500" by (rule prop_c_error_not_200)
  with Inr pd e assms(1) show ?thesis by (simp add: resolve_price_def)
qed

lemma prop_c_total: "pd \<noteq> JNull \<Longrightarrow> \<exists>v. prop_c pd = Inr v"
  by (cases pd) (simp_all add: prop_c_def)

lemma resolve_price_fetch:
  "\<not> isCacheValid (p_check_time env) (Some (price sc)) \<Longrightarrow>
   fetchPriceFromFinnhub (p_fetch env) = Inr pd \<Longrightarrow> prop_c pd = Inr v \<Longrightarrow>
   resolve_price symbol sc src env =
     (Inr (or_null v), sc\<lparr>price := \<lparr>data = or_null v, timestamp = Some (p_write_time env)\<rparr>\<rparr>,
      ''api'', [Quote symbol])"
  by (simp add: resolve_price_def)

lemma resolve_price_ok:
  assumes "\<not> isCacheValid (p_check_time env) (Some (price sc))" and "\<not> quote_fails env"
  shows "\<exists>pd v. fetchPriceFromFinnhub (p_fetch env) = Inr pd \<and> pd \<noteq> JNull \<and> prop_c pd = Inr v
     \<and> resolve_price symbol sc src env =
         (Inr (or_null v), sc\<lparr>price := \<lparr>data = or_null v, timestamp = Some (p_write_time env)\<rparr>\<rparr>,
          ''api'', [Quote symbol])"
proof -
  from assms(2) obtain pd where pd: "fetchPriceFromFinnhub (p_fetch env) = Inr pd" "pd \<noteq> JNull"
    by (auto simp: quote_fails_def split: sum.splits)
  from prop_c_total [OF pd(2)] obtain v where "prop_c pd = Inr v" ..
  with pd resolve_price_fetch [OF assms(1) pd(1) this] show ?thesis by blast
qed

text \<open>What the handler returns once the two steps are known.\<close>

lemma getSymbolNews_news_error:
  "\<not> key_missing k \<Longrightarrow>
   resolve_news (toUpperCase param) (symbol_record c (toUpperCase param)) ''cache'' env =
     (Inl e, sc1, src1, calls1) \<Longrightarrow>
   getSymbolNews k c param env =
     (catch_error ''Failed to fetch news/price'' e,
      put_symbol (ensure_symbol c (toUpperCase param)) (toUpperCase param) sc1, calls1)"
  by (simp add: getSymbolNews_def Let_def)

lemma getSymbolNews_price_error:
  "\<not> key_missing k \<Longrightarrow>
   resolve_news (toUpperCase param) (symbol_record c (toUpperCase param)) ''cache'' env =
     (Inr n, sc1, src1, calls1) \<Longrightarrow>
   resolve_price (toUpperCase param) sc1 src1 env = (Inl e, sc2, src2, calls2) \<Longrightarrow>
   getSymbolNews k c param env =
     (catch_error ''Failed to fetch news/price'' e,
      put_symbol (ensure_symbol c (toUpperCase param)) (toUpperCase param) sc2, calls1 @ calls2)"
  by (simp add: getSymbolNews_def Let_def)

lemma getSymbolNews_success:
  "\<not> key_missing k \<Longrightarrow>
   resolve_news (toUpperCase param) (symbol_record c (toUpperCase param)) ''cache'' env =
     (Inr n, sc1, src1, calls1) \<Longrightarrow>
   resolve_price (toUpperCase param) sc1 src1 env = (Inr p, sc2, src2, calls2) \<Longrightarrow>
   getSymbolNews k c param env =
     (\<lparr>res_status = 200,
       res_json = JObj [(''symbol'', JStr (toUpperCase param)), (''price'', p),
                        (''news'', array_or_empty n), (''source'', JStr src2)]\<rparr>,
      put_symbol (ensure_symbol c (toUpperCase param)) (toUpperCase param) sc2, calls1 @ calls2)"
  by (simp add: getSymbolNews_def Let_def)

lemma getSymbolNews_no_key:
  "key_missing k \<Longrightarrow>
   getSymbolNews k c param env = (config_error, ensure_symbol c (toUpperCase param), [])"
  by (simp add: getSymbolNews_def Let_def)

lemma field_source [simp]:
  "field ''source'' (JObj [(''symbol'', a), (''price'', b), (''news'', d), (''source'', e)]) = Some e"
  by (simp add: field_def)

lemma field_price [simp]:
  "field ''price'' (JObj [(''symbol'', a), (''price'', b), (''news'', d), (''source'', e)]) = Some b"
  by (simp add: field_def)

lemma field_news [simp]:
  "field ''news'' (JObj [(''symbol'', a), (''price'', b), (''news'', d), (''source'', e)]) = Some d"
  by (simp add: field_def)

lemma quote_not_news_url [simp]: "Quote q \<noteq> news_url s"
  by (simp add: news_url_def split: option.splits)

lemma prop_c_field: "pd \<noteq> JNull \<Longrightarrow> prop_c pd = Inr (field ''c'' pd)"
  by (cases pd) (simp_all add: prop_c_def field_def)

lemma isCacheValid_later:
  "\<not> isCacheValid t e \<Longrightarrow> t \<le> t' \<Longrightarrow> \<not> isCacheValid t' e"
  by (cases e) (auto simp: isCacheValid.simps split: option.splits if_splits)

lemma falsy_values:
  "\<not> truthy x \<longleftrightarrow> x = JNull \<or> x = JBool False \<or> x = JNum 0 \<or> x = JStr []"
  by (cases x) auto

text \<open>The definitions unfolded to run a handler on a concrete request.\<close>

lemmas eval_defs =
  getSymbolNews_def getGeneralNews_def Let_def key_missing_def symbol_record_def
  ensure_symbol_def put_symbol_def initial_cache_def empty_symbol_cache_def empty_entry_def
  resolve_news_def resolve_price_def symbol_at_def general_at_def http_ok_def http_fail_def
  fetchNewsFromFinnhub_def fetchPriceFromFinnhub_def fetchFromFinnhub_def ok_def prop_c_def
  or_null_def isCacheValid.simps CACHE_TTL_def news_url_def catch_error_def array_or_empty_def
  api_key_def t0_def quote_body_def unavailable_def too_many_def aged_cache_def field_def
  toUpperCase_aapl

text \<open>
  The paths through the symbol handler when the key is set: the news fetch throws; or
  the news is there (from the cache or fetched) and the price is cached, or its fetch
  throws, or it is fetched.
\<close>

lemma getSymbolNews_cases [case_names news_throw price_hit price_throw price_fetch]:
  fixes k c param env
  defines "s \<equiv> toUpperCase param"
  defines "sc \<equiv> symbol_record c (toUpperCase param)"
  defines "c1 \<equiv> ensure_symbol c (toUpperCase param)"
  defines "cat \<equiv> ''Failed to fetch news/price''"
  defines "news_ok \<equiv> \<lambda>n sc1 src1 calls1.
     (isCacheValid (n_check_time env) (Some (news sc)) \<and> n = data (news sc) \<and> sc1 = sc
        \<and> src1 = ''cache'' \<and> calls1 = [])
     \<or> (\<not> isCacheValid (n_check_time env) (Some (news sc))
        \<and> fetchNewsFromFinnhub (n_fetch env) = Inr n
        \<and> sc1 = sc\<lparr>news := \<lparr>data = n, timestamp = Some (n_write_time env)\<rparr>\<rparr>
        \<and> src1 = ''api'' \<and> calls1 = [news_url (Some s)])"
  assumes key: "\<not> key_missing k"
  obtains
    (news_throw) e where
      "\<not> isCacheValid (n_check_time env) (Some (news sc))"
      "fetchNewsFromFinnhub (n_fetch env) = Inl e"
      "getSymbolNews k c param env = (catch_error cat e, put_symbol c1 s sc, [news_url (Some s)])"
  | (price_hit) n sc1 src1 calls1 where
      "news_ok n sc1 src1 calls1"
      "isCacheValid (p_check_time env) (Some (price sc))"
      "getSymbolNews k c param env =
         (\<lparr>res_status = 200,
           res_json = JObj [(''symbol'', JStr s), (''price'', data (price sc)),
                            (''news'', array_or_empty n), (''source'', JStr src1)]\<rparr>,
          put_symbol c1 s sc1, calls1)"
  | (price_throw) n sc1 src1 calls1 e where
      "news_ok n sc1 src1 calls1"
      "\<not> isCacheValid (p_check_time env) (Some (price sc))"
      "fetchPriceFromFinnhub (p_fetch env) = Inl e
         \<or> fetchPriceFromFinnhub (p_fetch env) = Inr JNull \<and> prop_c JNull = Inl e"
      "getSymbolNews k c param env = (catch_error cat e, put_symbol c1 s sc1, calls1 @ [Quote s])"
  | (price_fetch) n sc1 src1 calls1 pd v where
      "news_ok n sc1 src1 calls1"
      "\<not> isCacheValid (p_check_time env) (Some (price sc))"
      "fetchPriceFromFinnhub (p_fetch env) = Inr pd" "pd \<noteq> JNull" "prop_c pd = Inr v"
      "getSymbolNews k c param env =
         (\<lparr>res_status = 200,
           res_json = JObj [(''symbol'', JStr s), (''price'', or_null v),
                            (''news'', array_or_empty n), (''source'', JStr ''api'')]\<rparr>,
          put_symbol c1 s
            (sc1\<lparr>price := \<lparr>data = or_null v, timestamp = Some (p_write_time env)\<rparr>\<rparr>),
          calls1 @ [Quote s])"
proof -
  have price: thesis
    if n: "resolve_news s sc ''cache'' env = (Inr n, sc1, src1, calls1)"
      and ok: "news_ok n sc1 src1 calls1"
    for n sc1 src1 calls1
  proof -
    from ok have pr: "price sc1 = price sc" by (auto simp: news_ok_def)
    show thesis
    proof (cases "isCacheValid (p_check_time env) (Some (price sc))")
      case True
      with pr have "resolve_price s sc1 src1 env = (Inr (data (price sc)), sc1, src1, [])"
        using resolve_price_hit [of env sc1 s src1] by simp
      from getSymbolNews_success [OF key n [unfolded s_def sc_def] this [unfolded s_def]]
      show thesis using ok True by (intro price_hit) (simp_all add: s_def sc_def c1_def)
    next
      case False
      then have inv: "\<not> isCacheValid (p_check_time env) (Some (price sc1))" using pr by simp
      show thesis
      proof (cases "fetchPriceFromFinnhub (p_fetch env)")
        case (Inl e)
        with inv have "resolve_price s sc1 src1 env = (Inl e, sc1, src1, [Quote s])"
          by (simp add: resolve_price_def)
        from getSymbolNews_price_error [OF key n [unfolded s_def sc_def] this [unfolded s_def]]
        show thesis using ok False Inl
          by (intro price_throw [of n sc1 src1 calls1 e]) (simp_all add: s_def sc_def c1_def cat_def)
      next
        case (Inr pd)
        show thesis
        proof (cases "pd = JNull")
          case True
          obtain e where e: "prop_c JNull = Inl e" by (simp add: prop_c_def)
          with inv Inr True have "resolve_price s sc1 src1 env = (Inl e, sc1, src1, [Quote s])"
            by (simp add: resolve_price_def)
          from getSymbolNews_price_error [OF key n [unfolded s_def sc_def] this [unfolded s_def]]
          show thesis using ok False Inr True e
            by (intro price_throw [of n sc1 src1 calls1 e]) (simp_all add: s_def sc_def c1_def cat_def)
        next
          case nn: False
          from prop_c_total [OF nn] obtain v where v: "prop_c pd = Inr v" ..
          from getSymbolNews_success [OF key n [unfolded s_def sc_def]
              resolve_price_fetch [OF inv Inr v, of s src1, unfolded s_def]]
          show thesis using ok False Inr nn v
            by (intro price_fetch [of n sc1 src1 calls1 pd v]) (simp_all add: s_def sc_def c1_def)
        qed
      qed
    qed
  qed
  show thesis
  proof (cases "isCacheValid (n_check_time env) (Some (news sc))")
    case True
    show thesis
      by (rule price [OF resolve_news_hit [OF True]]) (simp add: news_ok_def True)
  next
    case False
    show thesis
    proof (cases "fetchNewsFromFinnhub (n_fetch env)")
      case (Inl e)
      from getSymbolNews_news_error [OF key resolve_news_throw [OF False Inl, unfolded sc_def]]
      show thesis using False Inl
        by (intro news_throw [of e]) (simp_all add: s_def sc_def c1_def cat_def)
    next
      case (Inr n)
      show thesis
        by (rule price [OF resolve_news_fetch [OF False Inr]]) (simp add: news_ok_def False Inr)
    qed
  qed
qed


section \<open>General news\<close>

text \<open>
  C6. If the general entry is valid when the request arrives, the handler answers 200
  with the cached payload as it is, makes no upstream call and leaves the cache as it
  was, whatever the API key is (the key is not looked at on this path).
\<close>

theorem general_cache_hit:
  "isCacheValid (g_check_time env) (Some (general c)) \<Longrightarrow>
   getGeneralNews FINNHUB_API_KEY c env =
     (\<lparr>res_status = 200, res_json = data (general c)\<rparr>, c, [])"
  by (simp add: getGeneralNews_def)

theorem general_cache_hit_witness:
  "isCacheValid (g_check_time (general_at (t0 + 30000) unavailable)) (Some (general warm_cache))
   \<and> getGeneralNews None warm_cache (general_at (t0 + 30000) unavailable) =
      (\<lparr>res_status = 200, res_json = JArr [article]\<rparr>, warm_cache, [])"
proof -
  have v: "isCacheValid (g_check_time (general_at (t0 + 30000) unavailable))
     (Some (general warm_cache))"
    by (simp add: warm_cache_def eval_defs)
  from v general_cache_hit [OF v, of None] show ?thesis by (simp add: warm_cache_def)
qed

section \<open>Missing API key\<close>

lemma no_key_general_stays_empty:
  "key_missing k \<Longrightarrow> general c = empty_entry \<Longrightarrow> general (run k c reqs) = empty_entry"
proof (induction reqs arbitrary: c)
  case Nil
  then show ?case by (simp add: run_def)
next
  case (Cons r rs)
  have "general (step k c r) = empty_entry"
    using Cons.prems
    by (cases r) (simp_all add: step_def handle_def getGeneralNews_def getSymbolNews_def
        empty_entry_def Let_def isCacheValid.simps)
  from Cons.IH [OF Cons.prems(1) this] show ?case by (simp add: run_def)
qed

text \<open>
  C1. \<^verbatim>\<open>FINNHUB_API_KEY\<close> is a constant of the process, read once at start
  (line 7), so the cache states the server can be in with the key unset are those
  reached from the initial cache by requests handled with the key unset. In every such
  state every request, for general news or for a symbol, is answered with the
  configuration error, status 500, and no upstream call is made. A symbol request is
  answered so in any cache state whatever, and no general-news request makes an
  upstream call in any cache state.
\<close>

theorem missing_key_config_error:
  "key_missing k \<Longrightarrow>
     (fst (handle k (run k initial_cache reqs) req) = config_error
        \<and> snd (snd (handle k (run k initial_cache reqs) req)) = [])
   \<and> res_status config_error = 500
   \<and> field ''error'' (res_json config_error) = Some (JStr ''Server configuration error'')
   \<and> (fst (getSymbolNews k c param senv) = config_error
        \<and> snd (snd (getSymbolNews k c param senv)) = [])
   \<and> snd (snd (getGeneralNews k c genv)) = []"
proof -
  assume km: "key_missing k"
  have sym: "\<And>c param senv. getSymbolNews k c param senv =
      (config_error, ensure_symbol c (toUpperCase param), [])"
    using km by (simp add: getSymbolNews_def Let_def)
  have gen: "\<And>c genv. \<not> isCacheValid (g_check_time genv) (Some (general c)) \<Longrightarrow>
      getGeneralNews k c genv = (config_error, c, [])"
    using km by (simp add: getGeneralNews_def)
  have gencalls: "\<And>c genv. snd (snd (getGeneralNews k c genv)) = []"
    using km by (simp add: getGeneralNews_def)
  have "general (run k initial_cache reqs) = empty_entry"
    using km by (rule no_key_general_stays_empty) (simp add: initial_cache_def)
  then have inv: "\<And>genv. \<not> isCacheValid (g_check_time genv) (Some (general (run k initial_cache reqs)))"
    by (simp add: empty_entry_def isCacheValid.simps)
  have reach: "fst (handle k (run k initial_cache reqs) req) = config_error
        \<and> snd (snd (handle k (run k initial_cache reqs) req)) = []"
  proof (cases req)
    case (General genv)
    then show ?thesis using gen [OF inv] by (simp add: handle_def)
  next
    case (Symbol param senv)
    then show ?thesis using sym by (simp add: handle_def)
  qed
  have "res_status config_error = 500"
    and "field ''error'' (res_json config_error) = Some (JStr ''Server configuration error'')"
    by (simp_all add: config_error_def field_def)
  with sym gencalls reach show ?thesis by simp
qed

theorem missing_key_config_error_witness:
  "key_missing None
   \<and> fst (handle None
        (run None initial_cache
           [General (general_at t0 (http_ok (JArr [article]))),
            Symbol ''aapl'' (symbol_at (t0 + 500) (http_ok (JArr [article])) (http_ok (quote_body 150)))])
        (General (general_at (t0 + 1000) (http_ok (JArr [article]))))) = config_error
   \<and> snd (snd (handle None
        (run None initial_cache
           [General (general_at t0 (http_ok (JArr [article]))),
            Symbol ''aapl'' (symbol_at (t0 + 500) (http_ok (JArr [article])) (http_ok (quote_body 150)))])
        (General (general_at (t0 + 1000) (http_ok (JArr [article])))))) = []
   \<and> fst (getSymbolNews None aged_cache ''aapl''
        (symbol_at t0 (http_ok (JArr [article])) (http_ok (quote_body 150)))) = config_error
   \<and> res_status config_error = 500"
proof -
  have km: "key_missing None" by (simp add: key_missing_def)
  from km
    missing_key_config_error [OF km, where c = aged_cache and param = "''aapl''"
      and senv = "symbol_at t0 (http_ok (JArr [article])) (http_ok (quote_body 150))"
      and reqs = "[General (general_at t0 (http_ok (JArr [article]))),
            Symbol ''aapl'' (symbol_at (t0 + 500) (http_ok (JArr [article])) (http_ok (quote_body 150)))]"
      and req = "General (general_at (t0 + 1000) (http_ok (JArr [article])))"]
  show ?thesis by simp
qed

section \<open>The invariant of cache entries\<close>

lemma entry_inv_empty: "entry_inv empty_entry"
  by (simp add: entry_inv_def empty_entry_def)

lemma resolve_news_inv:
  "entry_inv (news sc) \<Longrightarrow> entry_inv (price sc) \<Longrightarrow>
   resolve_news symbol sc src env = (r, sc', src', calls) \<Longrightarrow>
   entry_inv (news sc') \<and> entry_inv (price sc')"
  by (auto simp: resolve_news_def entry_inv_def split: if_splits sum.splits)

lemma resolve_price_inv:
  "entry_inv (news sc) \<Longrightarrow> entry_inv (price sc) \<Longrightarrow>
   resolve_price symbol sc src env = (r, sc', src', calls) \<Longrightarrow>
   entry_inv (news sc') \<and> entry_inv (price sc')"
  by (auto simp: resolve_price_def entry_inv_def split: if_splits sum.splits)

lemma cache_inv_ensure: "cache_inv c \<Longrightarrow> cache_inv (ensure_symbol c symbol)"
  by (auto simp: cache_inv_def symbols_ensure symbol_record_def empty_symbol_cache_def
      entry_inv_empty split: if_splits option.splits)

lemma cache_inv_put:
  "cache_inv c \<Longrightarrow> entry_inv (news sc) \<Longrightarrow> entry_inv (price sc) \<Longrightarrow>
   cache_inv (put_symbol c symbol sc)"
  by (auto simp: cache_inv_def symbols_put split: if_splits)

lemma cache_inv_record:
  "cache_inv c \<Longrightarrow> entry_inv (news (symbol_record c symbol)) \<and> entry_inv (price (symbol_record c symbol))"
  by (auto simp: cache_inv_def symbol_record_def empty_symbol_cache_def entry_inv_empty
      split: option.splits)

lemma getGeneralNews_inv:
  "cache_inv c \<Longrightarrow> cache_inv (fst (snd (getGeneralNews k c env)))"
  by (auto simp: getGeneralNews_def cache_inv_def entry_inv_def split: sum.splits)

lemma getSymbolNews_inv:
  assumes "cache_inv c"
  shows "cache_inv (fst (snd (getSymbolNews k c param env)))"
proof -
  let ?s = "toUpperCase param"
  let ?c = "ensure_symbol c ?s"
  let ?sc = "symbol_record c ?s"
  have c: "cache_inv ?c" using assms by (rule cache_inv_ensure)
  have sc: "entry_inv (news ?sc)" "entry_inv (price ?sc)"
    using cache_inv_record [OF assms] by simp_all
  obtain r1 sc1 src1 calls1 where n: "resolve_news ?s ?sc ''cache'' env = (r1, sc1, src1, calls1)"
    by (cases "resolve_news ?s ?sc ''cache'' env") auto
  have sc1: "entry_inv (news sc1)" "entry_inv (price sc1)"
    using resolve_news_inv [OF sc n] by simp_all
  obtain r2 sc2 src2 calls2 where p: "resolve_price ?s sc1 src1 env = (r2, sc2, src2, calls2)"
    by (cases "resolve_price ?s sc1 src1 env") auto
  have sc2: "entry_inv (news sc2)" "entry_inv (price sc2)"
    using resolve_price_inv [OF sc1 p] by simp_all
  show ?thesis
    using c n p cache_inv_put [OF c sc1] cache_inv_put [OF c sc2]
    by (simp add: getSymbolNews_def Let_def split: sum.splits)
qed

lemma step_inv: "cache_inv c \<Longrightarrow> cache_inv (step k c req)"
  by (cases req) (simp_all add: step_def handle_def getGeneralNews_inv getSymbolNews_inv)

lemma run_inv: "cache_inv c \<Longrightarrow> cache_inv (run k c reqs)"
proof (induction reqs arbitrary: c)
  case Nil
  then show ?case by (simp add: run_def)
next
  case (Cons r rs)
  from Cons.IH [OF step_inv [OF Cons.prems]] show ?case by (simp add: run_def)
qed

lemma cache_inv_initial: "cache_inv initial_cache"
  by (simp add: cache_inv_def initial_cache_def entry_inv_empty)

text \<open>
  C2 (as amended). For every cache entry (the general one and the news and price
  entries of every symbol) an absent timestamp implies absent data. This holds in the
  initial cache, is preserved by every request of both flows, and so holds in every
  reachable state.
\<close>

theorem timestamp_absent_data_absent:
  "cache_inv initial_cache
   \<and> (cache_inv c \<longrightarrow> cache_inv (step k c req))
   \<and> cache_inv (run k initial_cache reqs)"
  using cache_inv_initial step_inv run_inv by blast

lemma zero_quote_run_state:
  "symbols (run api_key initial_cache zero_quote_run) ''AAPL'' =
     Some \<lparr>news = \<lparr>data = JArr [article], timestamp = Some (t0 + 100)\<rparr>,
           price = \<lparr>data = JNull, timestamp = Some (t0 + 201)\<rparr>\<rparr>"
  by (simp add: run_def step_def handle_def zero_quote_run_def eval_defs)

theorem timestamp_absent_data_absent_witness:
  "cache_inv (run api_key initial_cache zero_quote_run)
   \<and> cache_inv (step api_key initial_cache (General (general_at t0 (http_ok JNull))))
   \<and> entry_inv \<lparr>data = JNull, timestamp = Some (t0 + 201)\<rparr>"
proof -
  from timestamp_absent_data_absent
    [of initial_cache api_key "General (general_at t0 (http_ok JNull))" zero_quote_run]
  have inv: "cache_inv (run api_key initial_cache zero_quote_run)"
    and stp: "cache_inv (step api_key initial_cache (General (general_at t0 (http_ok JNull))))"
    by simp_all
  from inv zero_quote_run_state
  have "entry_inv (price \<lparr>news = \<lparr>data = JArr [article], timestamp = Some (t0 + 100)\<rparr>,
           price = \<lparr>data = JNull, timestamp = Some (t0 + 201)\<rparr>\<rparr>)"
    unfolding cache_inv_def by blast
  with inv stp show ?thesis by simp
qed

text \<open>
  C2 as stated fails: after a first request for AAPL whose quote has a current price
  of 0, the price entry holds \<^verbatim>\<open>null\<close> data under a present timestamp.
\<close>

theorem null_price_with_timestamp_counterexample:
  "symbols (run api_key initial_cache zero_quote_run) ''AAPL'' =
     Some \<lparr>news = \<lparr>data = JArr [article], timestamp = Some (t0 + 100)\<rparr>,
           price = \<lparr>data = JNull, timestamp = Some (t0 + 201)\<rparr>\<rparr>
   \<and> \<not> entry_inv_spec \<lparr>data = JNull, timestamp = Some (t0 + 201)\<rparr>"
  using zero_quote_run_state by (simp add: entry_inv_spec_def)

section \<open>The source field\<close>

text \<open>
  C5. In a symbol request answered with 200, \<^verbatim>\<open>source\<close> is \<^verbatim>\<open>"api"\<close> iff
  an upstream call was made (for the news or for the price), and \<^verbatim>\<open>"cache"\<close>
  iff none was, which is the case iff both entries of the symbol were valid.
\<close>

theorem source_field:
  assumes "getSymbolNews k c param env = (r, c', calls)" and "res_status r = 200"
  shows "(field ''source'' (res_json r) = Some (JStr ''api'') \<longleftrightarrow> calls \<noteq> [])
     \<and> (field ''source'' (res_json r) = Some (JStr ''cache'') \<longleftrightarrow> calls = [])
     \<and> (calls = [] \<longleftrightarrow>
          isCacheValid (n_check_time env) (Some (news (symbol_record c (toUpperCase param))))
          \<and> isCacheValid (p_check_time env) (Some (price (symbol_record c (toUpperCase param)))))
     \<and> (calls \<noteq> [] \<longleftrightarrow>
          news_url (Some (toUpperCase param)) \<in> set calls \<or> Quote (toUpperCase param) \<in> set calls)"
proof -
  let ?s = "toUpperCase param"
  let ?sc = "symbol_record c ?s"
  let ?cat = "''Failed to fetch news/price''"
  from assms have k: "\<not> key_missing k"
    by (auto simp: getSymbolNews_no_key config_error_def)
  have price: ?thesis
    if n: "resolve_news ?s ?sc ''cache'' env = (Inr n, sc1, src1, calls1)"
      and src: "src1 = ''api'' \<longleftrightarrow> calls1 \<noteq> []" "src1 = ''cache'' \<longleftrightarrow> calls1 = []"
      and c1: "calls1 = [] \<longleftrightarrow> isCacheValid (n_check_time env) (Some (news ?sc))"
         "calls1 \<noteq> [] \<longleftrightarrow> calls1 = [news_url (Some ?s)]"
      and pr: "price sc1 = price ?sc"
    for n sc1 src1 calls1
  proof (cases "isCacheValid (p_check_time env) (Some (price sc1))")
    case True
    from getSymbolNews_success [OF k n resolve_price_hit [OF True]] assms src c1 pr True
    show ?thesis by auto
  next
    case False
    show ?thesis
    proof (cases "quote_fails env")
      case True
      from resolve_price_throw [OF False True, of ?s src1 ?cat] obtain e where
        e: "resolve_price ?s sc1 src1 env = (Inl e, sc1, src1, [Quote ?s])"
           "res_status (catch_error ?cat e) \<notin> {200..<300}" by blast
      from getSymbolNews_price_error [OF k n e(1)] assms e(2) show ?thesis by auto
    next
      case nf: False
      from resolve_price_ok [OF False nf, of ?s src1] obtain v where
        "resolve_price ?s sc1 src1 env =
         (Inr (or_null v), sc1\<lparr>price := \<lparr>data = or_null v, timestamp = Some (p_write_time env)\<rparr>\<rparr>,
          ''api'', [Quote ?s])" by blast
      from getSymbolNews_success [OF k n this] assms src c1 pr False
      show ?thesis by auto
    qed
  qed
  show ?thesis
  proof (cases "isCacheValid (n_check_time env) (Some (news ?sc))")
    case True
    show ?thesis by (rule price [OF resolve_news_hit [OF True]]) (use True in simp_all)
  next
    case False
    show ?thesis
    proof (cases "fetchNewsFromFinnhub (n_fetch env)")
      case (Inl e)
      from Inl have "res_status (catch_error ?cat e) \<notin> {200..<300}"
        unfolding fetchNewsFromFinnhub_def by (rule catch_error_not_200)
      with getSymbolNews_news_error [OF k resolve_news_throw [OF False Inl]] assms
      show ?thesis by auto
    next
      case (Inr n)
      show ?thesis by (rule price [OF resolve_news_fetch [OF False Inr]]) (use False in simp_all)
    qed
  qed
qed

theorem source_field_witness:
  "res_status (fst (getSymbolNews api_key initial_cache ''aapl''
       (symbol_at t0 (http_ok (JArr [article])) (http_ok (quote_body 150))))) = 200
   \<and> snd (snd (getSymbolNews api_key initial_cache ''aapl''
       (symbol_at t0 (http_ok (JArr [article])) (http_ok (quote_body 150))))) \<noteq> []
   \<and> field ''source'' (res_json (fst (getSymbolNews api_key initial_cache ''aapl''
       (symbol_at t0 (http_ok (JArr [article])) (http_ok (quote_body 150)))))) = Some (JStr ''api'')"
proof -
  let ?x = "getSymbolNews api_key initial_cache ''aapl''
       (symbol_at t0 (http_ok (JArr [article])) (http_ok (quote_body 150)))"
  have eq: "?x = (fst ?x, fst (snd ?x), snd (snd ?x))" by simp
  have st: "res_status (fst ?x) = 200" by (simp add: eval_defs)
  have calls: "snd (snd ?x) \<noteq> []" by (simp add: eval_defs)
  from source_field [OF eq st] st calls show ?thesis by simp
qed

section \<open>Order and frame of a symbol request\<close>

text \<open>
  C10. A symbol request resolves the news before the price: the upstream calls it makes
  are, in order, at most the news call and then the quote call. No symbol request
  changes the general entry or the record of another symbol. If the news fetch throws,
  no quote call is made and the record of the symbol is what it was (the empty record,
  created by this request, if the symbol had none), so its price entry has the data and
  the timestamp it had before.
\<close>

theorem news_failure_frame:
  "general (fst (snd (getSymbolNews k c param env))) = general c
   \<and> (\<forall>s. s \<noteq> toUpperCase param \<longrightarrow>
          symbols (fst (snd (getSymbolNews k c param env))) s = symbols c s)
   \<and> (snd (snd (getSymbolNews k c param env))
        \<in> {[], [news_url (Some (toUpperCase param))], [Quote (toUpperCase param)],
            [news_url (Some (toUpperCase param)), Quote (toUpperCase param)]})
   \<and> (\<not> key_missing k
        \<and> \<not> isCacheValid (n_check_time env) (Some (news (symbol_record c (toUpperCase param))))
        \<and> fetchNewsFromFinnhub (n_fetch env) = Inl e \<longrightarrow>
          fst (getSymbolNews k c param env) = catch_error ''Failed to fetch news/price'' e
          \<and> snd (snd (getSymbolNews k c param env)) = [news_url (Some (toUpperCase param))]
          \<and> Quote (toUpperCase param) \<notin> set (snd (snd (getSymbolNews k c param env)))
          \<and> symbols (fst (snd (getSymbolNews k c param env))) (toUpperCase param) =
              Some (symbol_record c (toUpperCase param))
          \<and> price (symbol_record (fst (snd (getSymbolNews k c param env))) (toUpperCase param)) =
              price (symbol_record c (toUpperCase param)))"
proof (cases "key_missing k")
  case True
  then show ?thesis
    by (simp add: getSymbolNews_no_key symbols_ensure)
next
  case False
  then show ?thesis
  proof (cases rule: getSymbolNews_cases [where k = k and c = c and param = param and env = env])
    case (news_throw e')
    then show ?thesis
      by (simp add: symbols_put symbols_ensure symbol_record_put)
  next
    case (price_hit n sc1 src1 calls1)
    then show ?thesis
      by (auto simp: symbols_put symbols_ensure)
  next
    case (price_throw n sc1 src1 calls1 e')
    then show ?thesis
      by (auto simp: symbols_put symbols_ensure)
  next
    case (price_fetch n sc1 src1 calls1 pd v)
    then show ?thesis
      by (auto simp: symbols_put symbols_ensure)
  qed
qed

theorem news_failure_frame_witness:
  "snd (snd (getSymbolNews api_key aged_cache ''aapl''
       (symbol_at t0 unavailable (http_ok (quote_body 150))))) = [CompanyNews ''AAPL'']
   \<and> price (symbol_record (fst (snd (getSymbolNews api_key aged_cache ''aapl''
       (symbol_at t0 unavailable (http_ok (quote_body 150)))))) ''AAPL'') =
       \<lparr>data = JNum 150, timestamp = Some (t0 - 90000)\<rparr>
   \<and> general (fst (snd (getSymbolNews api_key aged_cache ''aapl''
       (symbol_at t0 unavailable (http_ok (quote_body 150)))))) = empty_entry"
proof -
  let ?env = "symbol_at t0 unavailable (http_ok (quote_body 150))"
  let ?e = "\<lparr>err_status = Some 503, err_message = ''Finnhub API error: Service Unavailable''\<rparr>"
  have 1: "\<not> key_missing api_key" by (simp add: eval_defs)
  have 2: "\<not> isCacheValid (n_check_time ?env) (Some (news (symbol_record aged_cache (toUpperCase ''aapl''))))"
    by (simp add: eval_defs)
  have 3: "fetchNewsFromFinnhub (n_fetch ?env) = Inl ?e" by (simp add: eval_defs)
  have 4: "price (symbol_record aged_cache ''AAPL'') = \<lparr>data = JNum 150, timestamp = Some (t0 - 90000)\<rparr>"
    by (simp add: eval_defs)
  have 5: "general aged_cache = empty_entry" by (simp add: eval_defs)
  from news_failure_frame [of api_key aged_cache "''aapl''" ?env ?e] 1 2 3 4 5
  show ?thesis by (simp add: toUpperCase_aapl news_url_def)
qed

section \<open>Falsy prices\<close>

text \<open>
  C9. When the price is fetched (the price entry is not valid, the quote call answers
  with a parsed body other than \<^verbatim>\<open>null\<close>) and the body's field
  \<^verbatim>\<open>c\<close> is absent or falsy, that is \<^verbatim>\<open>null\<close>, \<^verbatim>\<open>false\<close>,
  \<^verbatim>\<open>0\<close> or the empty string, the response is a 200 whose \<^verbatim>\<open>price\<close> is
  \<^verbatim>\<open>null\<close>, and the price entry stores \<^verbatim>\<open>null\<close> with the time of the
  write.
\<close>

theorem falsy_price_is_null:
  assumes "\<not> key_missing k"
    and "isCacheValid (n_check_time env) (Some (news (symbol_record c (toUpperCase param))))
         \<or> (\<exists>n. fetchNewsFromFinnhub (n_fetch env) = Inr n)"
    and "\<not> isCacheValid (p_check_time env) (Some (price (symbol_record c (toUpperCase param))))"
    and "fetchPriceFromFinnhub (p_fetch env) = Inr priceData" and "priceData \<noteq> JNull"
    and "field ''c'' priceData = None
         \<or> field ''c'' priceData \<in> {Some JNull, Some (JBool False), Some (JNum 0), Some (JStr [])}"
  shows "res_status (fst (getSymbolNews k c param env)) = 200
     \<and> field ''price'' (res_json (fst (getSymbolNews k c param env))) = Some JNull
     \<and> price (symbol_record (fst (snd (getSymbolNews k c param env))) (toUpperCase param)) =
          \<lparr>data = JNull, timestamp = Some (p_write_time env)\<rparr>
     \<and> Quote (toUpperCase param) \<in> set (snd (snd (getSymbolNews k c param env)))"
  using assms(1)
proof (cases rule: getSymbolNews_cases [where k = k and c = c and param = param and env = env])
  case (news_throw e)
  with assms(2) show ?thesis by auto
next
  case (price_hit n sc1 src1 calls1)
  with assms(3) show ?thesis by simp
next
  case (price_throw n sc1 src1 calls1 e)
  with assms(4,5) show ?thesis by auto
next
  case (price_fetch n sc1 src1 calls1 pd v)
  with assms(4,5) prop_c_field [of priceData] have v: "v = field ''c'' priceData" by simp
  with assms(6) have "or_null v = JNull" by (auto simp: or_null_def)
  with price_fetch show ?thesis by (auto simp: symbol_record_put)
qed

theorem falsy_price_is_null_witness:
  "field ''price'' (res_json (fst (getSymbolNews api_key initial_cache ''aapl''
       (symbol_at t0 (http_ok (JArr [article])) (http_ok (quote_body 0)))))) = Some JNull
   \<and> price (symbol_record (fst (snd (getSymbolNews api_key initial_cache ''aapl''
       (symbol_at t0 (http_ok (JArr [article])) (http_ok (quote_body 0)))))) ''AAPL'') =
       \<lparr>data = JNull, timestamp = Some (t0 + 201)\<rparr>"
proof -
  let ?env = "symbol_at t0 (http_ok (JArr [article])) (http_ok (quote_body 0))"
  have 1: "\<not> key_missing api_key" by (simp add: eval_defs)
  have 2: "isCacheValid (n_check_time ?env) (Some (news (symbol_record initial_cache (toUpperCase ''aapl''))))
         \<or> (\<exists>n. fetchNewsFromFinnhub (n_fetch ?env) = Inr n)" by (simp add: eval_defs)
  have 3: "\<not> isCacheValid (p_check_time ?env) (Some (price (symbol_record initial_cache (toUpperCase ''aapl''))))"
    by (simp add: eval_defs)
  have 4: "fetchPriceFromFinnhub (p_fetch ?env) = Inr (quote_body 0)" by (simp add: eval_defs)
  have 5: "quote_body 0 \<noteq> JNull" by (simp add: eval_defs)
  have 6: "field ''c'' (quote_body 0) = None
         \<or> field ''c'' (quote_body 0) \<in> {Some JNull, Some (JBool False), Some (JNum 0), Some (JStr [])}"
    by (simp add: eval_defs)
  from falsy_price_is_null [OF 1 2 3 4 5 6] show ?thesis
    by (simp add: toUpperCase_aapl symbol_at_def)
qed

section \<open>Upstream failures\<close>

lemma thrown_surfaced:
  "fetchFromFinnhub (Resolves resp) = Inl e \<Longrightarrow> surfaced resp (catch_error cat e)"
  by (auto simp: fetchFromFinnhub_def surfaced_def rate_limited_def catch_error_def field_def ok_def
      split: if_splits sum.splits)

lemma parsed_surfaced:
  "fetchFromFinnhub (Resolves resp) = Inr d \<Longrightarrow> surfaced resp r"
  by (auto simp: fetchFromFinnhub_def surfaced_def ok_def split: if_splits sum.splits)

lemma general_surfaced:
  assumes "getGeneralNews k c genv = (r, c', calls)" and "news_url None \<in> set calls"
    and "g_fetch genv = Resolves resp"
  shows "surfaced resp r"
proof (cases "fetchNewsFromFinnhub (g_fetch genv)")
  case (Inl e)
  with assms thrown_surfaced [of resp e "''Failed to fetch news''"] show ?thesis
    by (auto simp: getGeneralNews_def fetchNewsFromFinnhub_def split: if_splits)
next
  case (Inr d)
  with assms(3) show ?thesis by (simp add: fetchNewsFromFinnhub_def parsed_surfaced)
qed

lemma symbol_news_surfaced:
  assumes "getSymbolNews k c param env = (r, c', calls)"
    and "news_url (Some (toUpperCase param)) \<in> set calls"
    and "n_fetch env = Resolves resp"
  shows "surfaced resp r"
proof -
  from assms(1,2) have "\<not> key_missing k" by (auto simp: getSymbolNews_no_key)
  then show ?thesis
  proof (cases rule: getSymbolNews_cases [where k = k and c = c and param = param and env = env])
    case (news_throw e)
    with assms(1,3) thrown_surfaced [of resp e] show ?thesis
      by (auto simp: fetchNewsFromFinnhub_def)
  next
    case (price_hit n sc1 src1 calls1)
    with assms show ?thesis by (auto simp: fetchNewsFromFinnhub_def parsed_surfaced)
  next
    case (price_throw n sc1 src1 calls1 e)
    with assms show ?thesis by (auto simp: fetchNewsFromFinnhub_def parsed_surfaced)
  next
    case (price_fetch n sc1 src1 calls1 pd v)
    with assms show ?thesis by (auto simp: fetchNewsFromFinnhub_def parsed_surfaced)
  qed
qed

lemma symbol_quote_surfaced:
  assumes "getSymbolNews k c param env = (r, c', calls)"
    and "Quote (toUpperCase param) \<in> set calls"
    and "p_fetch env = Resolves resp"
  shows "surfaced resp r"
proof -
  from assms(1,2) have "\<not> key_missing k" by (auto simp: getSymbolNews_no_key)
  then show ?thesis
  proof (cases rule: getSymbolNews_cases [where k = k and c = c and param = param and env = env])
    case (news_throw e)
    with assms show ?thesis by auto
  next
    case (price_hit n sc1 src1 calls1)
    with assms show ?thesis by auto
  next
    case (price_throw n sc1 src1 calls1 e)
    with assms(1,3) thrown_surfaced [of resp e] parsed_surfaced [of resp JNull]
    show ?thesis by (auto simp: fetchPriceFromFinnhub_def)
  next
    case (price_fetch n sc1 src1 calls1 pd v)
    with assms(3) show ?thesis by (simp add: fetchPriceFromFinnhub_def parsed_surfaced)
  qed
qed

text \<open>
  C7. Whenever a handler makes an upstream call (general news, company news or quote)
  and the call is answered with status 429, the response to the client has status 429
  and the category "Rate limit exceeded"; when it is answered with any other status
  that is not a success, the response has that status.
\<close>

theorem upstream_status_surfaced:
  "(getGeneralNews k c genv = (r, c', calls) \<and> news_url None \<in> set calls
      \<and> g_fetch genv = Resolves resp \<longrightarrow> surfaced resp r)
   \<and> (getSymbolNews k c param senv = (r, c', calls)
      \<and> news_url (Some (toUpperCase param)) \<in> set calls
      \<and> n_fetch senv = Resolves resp \<longrightarrow> surfaced resp r)
   \<and> (getSymbolNews k c param senv = (r, c', calls)
      \<and> Quote (toUpperCase param) \<in> set calls
      \<and> p_fetch senv = Resolves resp \<longrightarrow> surfaced resp r)"
proof (intro conjI impI; elim conjE)
  show "surfaced resp r"
    if "getGeneralNews k c genv = (r, c', calls)" "news_url None \<in> set calls"
      "g_fetch genv = Resolves resp"
    using that by (rule general_surfaced)
  show "surfaced resp r"
    if "getSymbolNews k c param senv = (r, c', calls)"
      "news_url (Some (toUpperCase param)) \<in> set calls" "n_fetch senv = Resolves resp"
    using that by (rule symbol_news_surfaced)
  show "surfaced resp r"
    if "getSymbolNews k c param senv = (r, c', calls)"
      "Quote (toUpperCase param) \<in> set calls" "p_fetch senv = Resolves resp"
    using that by (rule symbol_quote_surfaced)
qed

theorem upstream_status_surfaced_witness:
  "rate_limited (fst (getSymbolNews api_key initial_cache ''aapl''
       (symbol_at t0 (http_ok (JArr [article])) too_many)))
   \<and> res_status (fst (getGeneralNews api_key initial_cache (general_at t0 unavailable))) = 503"
proof -
  let ?senv = "symbol_at t0 (http_ok (JArr [article])) too_many"
  let ?x = "getSymbolNews api_key initial_cache ''aapl'' ?senv"
  let ?genv = "general_at t0 unavailable"
  let ?y = "getGeneralNews api_key initial_cache ?genv"
  let ?r429 = "\<lparr>status = 429, statusText = ''Too Many Requests'', json_body = Inr JNull\<rparr>"
  let ?r503 = "\<lparr>status = 503, statusText = ''Service Unavailable'', json_body = Inr JNull\<rparr>"
  have x: "?x = (fst ?x, fst (snd ?x), snd (snd ?x))" by simp
  have y: "?y = (fst ?y, fst (snd ?y), snd (snd ?y))" by simp
  have q: "Quote (toUpperCase ''aapl'') \<in> set (snd (snd ?x))" by (simp add: eval_defs)
  have g: "news_url None \<in> set (snd (snd ?y))" by (simp add: eval_defs)
  have pf: "p_fetch ?senv = Resolves ?r429" by (simp add: eval_defs)
  have gf: "g_fetch ?genv = Resolves ?r503" by (simp add: eval_defs)
  from upstream_status_surfaced [of api_key initial_cache ?genv "fst ?x" "fst (snd ?x)"
      "snd (snd ?x)" ?r429 "''aapl''" ?senv] x q pf
  have "surfaced ?r429 (fst ?x)" by blast
  moreover
  from upstream_status_surfaced [of api_key initial_cache ?genv "fst ?y" "fst (snd ?y)"
      "snd (snd ?y)" ?r503 "''aapl''" ?senv] y g gf
  have "surfaced ?r503 (fst ?y)" by blast
  ultimately show ?thesis by (simp add: surfaced_def ok_def)
qed

section \<open>Two general-news requests within the TTL\<close>

lemma general_success_payload:
  assumes "getGeneralNews k c env = (r, c', calls)" and "res_status r = 200"
  shows "r = \<lparr>res_status = 200, res_json = data (general c')\<rparr>
     \<and> (calls = [] \<and> c' = c \<and> isCacheValid (g_check_time env) (Some (general c))
        \<or> calls = [news_url None] \<and> timestamp (general c') = Some (g_write_time env))"
proof (cases "isCacheValid (g_check_time env) (Some (general c))")
  case True
  with assms show ?thesis by (auto simp: getGeneralNews_def)
next
  case False
  show ?thesis
  proof (cases "key_missing k")
    case True
    with False assms show ?thesis by (auto simp: getGeneralNews_def config_error_def)
  next
    case k: False
    show ?thesis
    proof (cases "fetchNewsFromFinnhub (g_fetch env)")
      case (Inl e)
      then have "res_status (catch_error ''Failed to fetch news'' e) \<notin> {200..<300}"
        unfolding fetchNewsFromFinnhub_def by (rule catch_error_not_200)
      with Inl False k assms show ?thesis by (auto simp: getGeneralNews_def)
    next
      case (Inr n)
      with False k assms show ?thesis by (auto simp: getGeneralNews_def)
    qed
  qed
qed

text \<open>
  C8. Let a general-news request be answered with 200, and let a second one arrive
  while the timestamp \<open>t\<close> of the general entry (the time of the first request's
  write, if it fetched) is less than the TTL old. Then the second request returns the
  same response, makes no upstream call and leaves the cache as it is. The time
  written by the first request is taken to be a reading of the clock other than 0.
\<close>

theorem general_idempotent:
  assumes "getGeneralNews k c env1 = (r1, c1, calls1)" and "res_status r1 = 200"
    and "g_write_time env1 \<noteq> 0"
    and "timestamp (general c1) = Some t" and "g_check_time env2 - t < CACHE_TTL"
  shows "getGeneralNews k c1 env2 = (r1, c1, [])
     \<and> (calls1 = [] \<or> calls1 = [news_url None] \<and> t = g_write_time env1)"
proof -
  from general_success_payload [OF assms(1,2)] have
    r1: "r1 = \<lparr>res_status = 200, res_json = data (general c1)\<rparr>"
    and how: "calls1 = [] \<and> c1 = c \<and> isCacheValid (g_check_time env1) (Some (general c))
        \<or> calls1 = [news_url None] \<and> timestamp (general c1) = Some (g_write_time env1)"
    by simp_all
  from how assms(3,4) have "t \<noteq> 0"
    by (auto simp: isCacheValid.simps split: if_splits)
  with assms(4,5) have "isCacheValid (g_check_time env2) (Some (general c1))"
    by (simp add: isCacheValid.simps)
  with r1 have "getGeneralNews k c1 env2 = (r1, c1, [])" by (simp add: getGeneralNews_def)
  moreover from how assms(4) have "calls1 = [] \<or> calls1 = [news_url None] \<and> t = g_write_time env1"
    by auto
  ultimately show ?thesis by simp
qed

theorem general_idempotent_witness:
  "getGeneralNews api_key
     (fst (snd (getGeneralNews api_key initial_cache (general_at t0 (http_ok (JArr [article]))))))
     (general_at (t0 + 30000) unavailable) =
   (\<lparr>res_status = 200, res_json = JArr [article]\<rparr>,
    fst (snd (getGeneralNews api_key initial_cache (general_at t0 (http_ok (JArr [article]))))),
    [])"
proof -
  let ?env1 = "general_at t0 (http_ok (JArr [article]))"
  let ?env2 = "general_at (t0 + 30000) unavailable"
  let ?x = "getGeneralNews api_key initial_cache ?env1"
  have x: "?x = (fst ?x, fst (snd ?x), snd (snd ?x))" by simp
  have r: "fst ?x = \<lparr>res_status = 200, res_json = JArr [article]\<rparr>" by (simp add: eval_defs)
  have 2: "res_status (fst ?x) = 200" by (simp add: r)
  have 3: "g_write_time ?env1 \<noteq> 0" by (simp add: eval_defs)
  have 4: "timestamp (general (fst (snd ?x))) = Some (t0 + 120)" by (simp add: eval_defs)
  have 5: "g_check_time ?env2 - (t0 + 120) < CACHE_TTL" by (simp add: eval_defs)
  from general_idempotent [OF x 2 3 4 5] r show ?thesis by simp
qed

section \<open>A price failure after a news success\<close>

lemma catch_error_category:
  "field ''error'' (res_json (catch_error cat e)) \<in> {Some (JStr ''Rate limit exceeded''), Some (JStr cat)}"
  by (simp add: catch_error_def field_def)

lemma price_throw_status:
  assumes "fetchPriceFromFinnhub (p_fetch env) = Inl e
         \<or> fetchPriceFromFinnhub (p_fetch env) = Inr JNull \<and> prop_c JNull = Inl e"
  shows "res_status (catch_error cat e) \<notin> {200..<300}"
  using assms catch_error_not_200 [of "p_fetch env" e cat] prop_c_error_not_200 [of JNull e cat]
  by (auto simp: fetchPriceFromFinnhub_def)

lemma price_throw_fails:
  "fetchPriceFromFinnhub (p_fetch env) = Inl e
     \<or> fetchPriceFromFinnhub (p_fetch env) = Inr JNull \<and> prop_c JNull = Inl e \<Longrightarrow> quote_fails env"
  by (auto simp: quote_fails_def)

lemma price_fetch_not_fails:
  "fetchPriceFromFinnhub (p_fetch env) = Inr pd \<Longrightarrow> pd \<noteq> JNull \<Longrightarrow> \<not> quote_fails env"
  by (simp add: quote_fails_def)

text \<open>
  C3. In a symbol request with the key set, let the news be fetched with success and
  the quote fetch then fail. The request is answered with an error, after the news
  call and the quote call; the news entry of the symbol holds the fetched news and the
  time of the write, and the price entry is untouched. A following request for the
  symbol that arrives less than the TTL after that write (a clock reading other than 0,
  the clock not running backwards) makes the quote call only, keeps the news entry, and
  if the quote now succeeds answers 200 with the cached news.
\<close>

theorem price_failure_keeps_news:
  assumes key: "\<not> key_missing k"
    and n_stale: "\<not> isCacheValid (n_check_time env) (Some (news (symbol_record c (toUpperCase param))))"
    and n_ok: "fetchNewsFromFinnhub (n_fetch env) = Inr n"
    and p_stale: "\<not> isCacheValid (p_check_time env) (Some (price (symbol_record c (toUpperCase param))))"
    and p_fails: "quote_fails env"
    and first: "getSymbolNews k c param env = (r1, c1, calls1)"
    and clock: "n_write_time env \<noteq> 0"
    and within: "n_check_time env' - n_write_time env < CACHE_TTL"
    and later: "p_check_time env \<le> p_check_time env'"
    and second: "getSymbolNews k c1 param env' = (r2, c2, calls2)"
  shows "res_status r1 \<notin> {200..<300}
     \<and> field ''error'' (res_json r1)
          \<in> {Some (JStr ''Rate limit exceeded''), Some (JStr ''Failed to fetch news/price'')}
     \<and> calls1 = [news_url (Some (toUpperCase param)), Quote (toUpperCase param)]
     \<and> symbols c1 (toUpperCase param) =
          Some ((symbol_record c (toUpperCase param))
                  \<lparr>news := \<lparr>data = n, timestamp = Some (n_write_time env)\<rparr>\<rparr>)
     \<and> isCacheValid (n_check_time env') (Some (news (symbol_record c1 (toUpperCase param))))
     \<and> calls2 = [Quote (toUpperCase param)]
     \<and> news (symbol_record c2 (toUpperCase param)) =
          \<lparr>data = n, timestamp = Some (n_write_time env)\<rparr>
     \<and> (if quote_fails env' then res_status r2 \<notin> {200..<300}
         else res_status r2 = 200
           \<and> field ''news'' (res_json r2) = Some (array_or_empty n)
           \<and> field ''source'' (res_json r2) = Some (JStr ''api''))"
proof -
  let ?s = "toUpperCase param"
  let ?sc = "symbol_record c ?s"
  let ?sc' = "?sc\<lparr>news := \<lparr>data = n, timestamp = Some (n_write_time env)\<rparr>\<rparr>"
  let ?cat = "''Failed to fetch news/price''"
  from key have one: "res_status r1 \<notin> {200..<300}
     \<and> field ''error'' (res_json r1) \<in> {Some (JStr ''Rate limit exceeded''), Some (JStr ?cat)}
     \<and> calls1 = [news_url (Some ?s), Quote ?s]
     \<and> c1 = put_symbol (ensure_symbol c ?s) ?s ?sc'"
  proof (cases rule: getSymbolNews_cases [where k = k and c = c and param = param and env = env])
    case (news_throw e)
    with n_ok show ?thesis by simp
  next
    case (price_hit n sc1 src1 calls1)
    with p_stale show ?thesis by simp
  next
    case (price_throw n' sc1 src1 calls1' e)
    with first n_stale n_ok price_throw_status [OF price_throw(3), of ?cat]
      catch_error_category [of ?cat e]
    show ?thesis by auto
  next
    case (price_fetch n sc1 src1 calls1 pd v)
    with p_fails price_fetch_not_fails show ?thesis by blast
  qed
  then have c1: "symbol_record c1 ?s = ?sc'" "symbols c1 ?s = Some ?sc'"
    by (simp_all add: symbol_record_put symbols_put)
  from clock within have fresh: "isCacheValid (n_check_time env') (Some (news (symbol_record c1 ?s)))"
    by (simp add: c1 isCacheValid.simps)
  from isCacheValid_later [OF p_stale later]
  have stale: "\<not> isCacheValid (p_check_time env') (Some (price (symbol_record c1 ?s)))"
    by (simp add: c1)
  from key have two: "calls2 = [Quote ?s]
     \<and> news (symbol_record c2 ?s) = \<lparr>data = n, timestamp = Some (n_write_time env)\<rparr>
     \<and> (if quote_fails env' then res_status r2 \<notin> {200..<300}
         else res_status r2 = 200
           \<and> field ''news'' (res_json r2) = Some (array_or_empty n)
           \<and> field ''source'' (res_json r2) = Some (JStr ''api''))"
  proof (cases rule: getSymbolNews_cases [where k = k and c = c1 and param = param and env = env'])
    case (news_throw e)
    with fresh show ?thesis by simp
  next
    case (price_hit n sc1 src1 calls1)
    with stale show ?thesis by simp
  next
    case (price_throw n' sc1 src1 calls1' e)
    with second fresh c1 price_throw_status [OF price_throw(3), of ?cat]
      price_throw_fails [OF price_throw(3)]
    show ?thesis by (auto simp: symbol_record_put)
  next
    case (price_fetch n' sc1 src1 calls1' pd v)
    with second fresh c1 price_fetch_not_fails [OF price_fetch(3,4)]
    show ?thesis by (auto simp: symbol_record_put)
  qed
  from one c1(2) fresh two show ?thesis by blast
qed

theorem price_failure_keeps_news_witness:
  "res_status (fst (getSymbolNews api_key initial_cache ''aapl''
       (symbol_at t0 (http_ok (JArr [article])) unavailable))) = 503
   \<and> snd (snd (getSymbolNews api_key
        (fst (snd (getSymbolNews api_key initial_cache ''aapl''
           (symbol_at t0 (http_ok (JArr [article])) unavailable))))
        ''aapl'' (symbol_at (t0 + 1000) unavailable (http_ok (quote_body 150))))) = [Quote ''AAPL'']
   \<and> field ''news'' (res_json (fst (getSymbolNews api_key
        (fst (snd (getSymbolNews api_key initial_cache ''aapl''
           (symbol_at t0 (http_ok (JArr [article])) unavailable))))
        ''aapl'' (symbol_at (t0 + 1000) unavailable (http_ok (quote_body 150)))))) = Some (JArr [article])"
proof -
  let ?env = "symbol_at t0 (http_ok (JArr [article])) unavailable"
  let ?env' = "symbol_at (t0 + 1000) unavailable (http_ok (quote_body 150))"
  let ?x = "getSymbolNews api_key initial_cache ''aapl'' ?env"
  let ?y = "getSymbolNews api_key (fst (snd ?x)) ''aapl'' ?env'"
  have 1: "\<not> key_missing api_key" by (simp add: eval_defs)
  have 2: "\<not> isCacheValid (n_check_time ?env) (Some (news (symbol_record initial_cache (toUpperCase ''aapl''))))"
    by (simp add: eval_defs)
  have 3: "fetchNewsFromFinnhub (n_fetch ?env) = Inr (JArr [article])" by (simp add: eval_defs)
  have 4: "\<not> isCacheValid (p_check_time ?env) (Some (price (symbol_record initial_cache (toUpperCase ''aapl''))))"
    by (simp add: eval_defs)
  have 5: "quote_fails ?env" by (simp add: quote_fails_def eval_defs)
  have 6: "?x = (fst ?x, fst (snd ?x), snd (snd ?x))" by simp
  have 7: "n_write_time ?env \<noteq> 0" by (simp add: eval_defs)
  have 8: "n_check_time ?env' - n_write_time ?env < CACHE_TTL" by (simp add: eval_defs)
  have 9: "p_check_time ?env \<le> p_check_time ?env'" by (simp add: eval_defs)
  have 10: "?y = (fst ?y, fst (snd ?y), snd (snd ?y))" by simp
  have 11: "\<not> quote_fails ?env'" by (simp add: quote_fails_def eval_defs)
  have 12: "res_status (fst ?x) = 503" by (simp add: eval_defs)
  from price_failure_keeps_news [OF 1 2 3 4 5 6 7 8 9 10] 11 12 show ?thesis
    by (simp add: toUpperCase_aapl array_or_empty_def)
qed

end
